theory Spec2Isabelle
  imports Main "HOL-Library.AList"
begin

section \<open>Strings\<close>

text \<open>
  Python strings are modelled as \<open>string\<close>. \<open>str.lower\<close> and \<open>str.upper\<close> are modelled on
  the ASCII letters; every other character is left as it is.
\<close>

definition ascii_uppercase :: string where
  "ascii_uppercase = ''ABCDEFGHIJKLMNOPQRSTUVWXYZ''"

definition ascii_lowercase :: string where
  "ascii_lowercase = ''abcdefghijklmnopqrstuvwxyz''"

definition lower_char :: "char \<Rightarrow> char" where
  "lower_char c =
     (case map_of (zip ascii_uppercase ascii_lowercase) c of None \<Rightarrow> c | Some d \<Rightarrow> d)"

definition upper_char :: "char \<Rightarrow> char" where
  "upper_char c =
     (case map_of (zip ascii_lowercase ascii_uppercase) c of None \<Rightarrow> c | Some d \<Rightarrow> d)"

definition lower :: "string \<Rightarrow> string" where
  "lower s = map lower_char s"

definition upper :: "string \<Rightarrow> string" where
  "upper s = map upper_char s"

definition newline :: char where
  "newline = CHR 0x0A"

section \<open>The parameter normalizer\<close>

text \<open>
  Lines 32 and 35 split \<open>dtype\<close> and \<open>col_name_ignore\<close> with
  \<^verbatim>\<open>re.split(r', | (?!.*?, )|,|\|', s)\<close>. The separator is, tried in this order at each
  position from the left: a comma followed by a space; a space after which the body of the
  negative lookahead, \<^verbatim>\<open>.*?, \<close>, finds no match; a comma; a pipe. The lookahead body
  matches when a comma followed by a space occurs before the next line break, since the dot
  does not match a line break.
\<close>

fun comma_space_ahead :: "string \<Rightarrow> bool" where
  "comma_space_ahead [] = False"
| "comma_space_ahead (c # cs) =
     (if c = CHR '','' \<and> take 1 cs = '' '' then True
      else if c = newline then False
      else comma_space_ahead cs)"

fun re_split :: "string \<Rightarrow> string list" where
  "re_split [] = [[]]"
| "re_split (c # cs) =
     (if c = CHR '','' \<and> take 1 cs = '' '' then [] # re_split (tl cs)
      else if c = CHR '' '' \<and> \<not> comma_space_ahead cs then [] # re_split cs
      else if c = CHR '','' then [] # re_split cs
      else if c = CHR ''|'' then [] # re_split cs
      else (case re_split cs of [] \<Rightarrow> [[c]] | t # ts \<Rightarrow> (c # t) # ts))"

text \<open>Lines 32-33 and 35-36: split, then lowercase every token.\<close>

definition normalize_param :: "string \<Rightarrow> string list" where
  "normalize_param s = map lower (re_split s)"

text \<open>A character that no alternative of the split pattern can start with.\<close>

definition plain_char :: "char \<Rightarrow> bool" where
  "plain_char c = (c \<noteq> CHR '','' \<and> c \<noteq> CHR '' '' \<and> c \<noteq> CHR ''|'')"

section \<open>Pattern matching\<close>

text \<open>
  Lines 45 and 53 call \<^verbatim>\<open>re.match(pattern, col_name, re.IGNORECASE)\<close>. The pattern is
  taken in compiled form, over the regular operators: a literal character, the dot, sequence,
  alternative and repetition. Under \<^verbatim>\<open>re.IGNORECASE\<close> a literal stands for its letter in
  either case; the dot stands for any character but a line break.
\<close>

datatype regex =
    Never
  | Empty
  | Lit char
  | AnyChar
  | Seq regex regex
  | Alt regex regex
  | Star regex



text \<open>
  \<^verbatim>\<open>re.match\<close> looks for a match that begins at the first character of the string and
  may end anywhere: it consumes the string character by character and succeeds as soon as
  what is left of the pattern accepts the empty string.
\<close>

fun nullable :: "regex \<Rightarrow> bool" where
  "nullable Never = False"
| "nullable Empty = True"
| "nullable (Lit a) = False"
| "nullable AnyChar = False"
| "nullable (Seq r s) = (nullable r \<and> nullable s)"
| "nullable (Alt r s) = (nullable r \<or> nullable s)"
| "nullable (Star r) = True"

fun deriv :: "char \<Rightarrow> regex \<Rightarrow> regex" where
  "deriv c Never = Never"
| "deriv c Empty = Never"
| "deriv c (Lit a) = (if lower_char c = lower_char a then Empty else Never)"
| "deriv c AnyChar = (if c \<noteq> newline then Empty else Never)"
| "deriv c (Seq r s) =
     (if nullable r then Alt (Seq (deriv c r) s) (deriv c s) else Seq (deriv c r) s)"
| "deriv c (Alt r s) = Alt (deriv c r) (deriv c s)"
| "deriv c (Star r) = Seq (deriv c r) (Star r)"

fun matches :: "regex \<Rightarrow> string \<Rightarrow> bool" where
  "matches r [] = nullable r"
| "matches r (c # cs) = (nullable r \<or> matches (deriv c r) cs)"


text \<open>The pattern that matches the given word, letter by letter.\<close>

fun lits :: "string \<Rightarrow> regex" where
  "lits [] = Empty"
| "lits (c # cs) = Seq (Lit c) (lits cs)"

section \<open>The catalog\<close>

text \<open>
  A column entry of the catalog. \<^verbatim>\<open>col.get("name")\<close> is \<open>None\<close> when the key is missing
  or its value is not a string; calling \<^verbatim>\<open>.lower()\<close> on it then raises.
\<close>

record column =
  name :: "string option"
  type :: "string option"

text \<open>
  A model entry. \<open>columns\<close> is \<open>None\<close> when the entry has no \<^verbatim>\<open>"columns"\<close> key, and
  otherwise the mapping from column name to column entry, in its iteration order.
\<close>

record node =
  columns :: "(string \<times> column) list option"

record model =
  model_id :: string
  node :: node

type_synonym catalog = "(string \<times> node) list"

datatype error = AttributeError | RegexError

text \<open>
  A printed line, as the values its template interpolates: the column name, the upper-case
  type list and the pattern for line 47; the column name, the pattern, the column type and
  the upper-case type list for line 55.
\<close>

datatype diagnostic =
    TypeWithoutPattern string "string list" "regex option"
  | PatternWithoutType string "regex option" string "string list"

record state =
  status_code :: int
  printed :: "diagnostic list"

section \<open>Resolving the models in scope\<close>

text \<open>
  The final component of a path, its suffix and its stem, as \<^verbatim>\<open>pathlib\<close> gives them
  for a file path: the suffix starts at the last dot of the final component, unless that dot
  is its first or its last character.
\<close>

definition path_name :: "string \<Rightarrow> string" where
  "path_name p = rev (takeWhile (\<lambda>c. c \<noteq> CHR ''/'') (rev p))"

definition path_suffix :: "string \<Rightarrow> string" where
  "path_suffix p =
     (let n = path_name p; ext = rev (takeWhile (\<lambda>c. c \<noteq> CHR ''.'') (rev n))
      in if CHR ''.'' \<in> set n \<and> ext \<noteq> [] \<and> length ext + 1 < length n
         then CHR ''.'' # ext else [])"

definition path_stem :: "string \<Rightarrow> string" where
  "path_stem p = (let n = path_name p in take (length n - length (path_suffix p)) n)"

text \<open>
  Modelled from the spec: \<^verbatim>\<open>get_filenames\<close> of \<^verbatim>\<open>dbt_checkpoint.utils\<close> is not among
  the sources. The spec has it resolve the given paths, under an extension filter, to the
  model identifiers to inspect, by filename stem: a dictionary from the stem of every path
  whose suffix is one of the extensions to that path.
\<close>

definition get_filenames :: "string list \<Rightarrow> string list \<Rightarrow> (string \<times> string) list" where
  "get_filenames paths extensions =
     fold (\<lambda>path result.
             if path_suffix path \<in> set extensions
             then AList.update (path_stem path) path result else result)
          paths []"

text \<open>
  Modelled from the spec: \<^verbatim>\<open>get_models\<close> of \<^verbatim>\<open>dbt_checkpoint.utils\<close> is not among the
  sources. The spec has the catalog map model identifiers to model entries, and has the
  models considered be those of the catalog whose identifier is among the file names.
\<close>

definition get_models :: "catalog \<Rightarrow> string set \<Rightarrow> model list" where
  "get_models catalog filenames =
     map (\<lambda>(k, n). \<lparr>model_id = k, node = n\<rparr>) (filter (\<lambda>(k, n). k \<in> filenames) catalog)"

section \<open>The contract check\<close>

text \<open>
  \<^verbatim>\<open>re.match(pattern, col_name, re.IGNORECASE)\<close> on a pattern that may fail to compile
  (\<open>None\<close>): the call then raises \<^verbatim>\<open>re.error\<close>.
\<close>

definition re_match :: "regex option \<Rightarrow> string \<Rightarrow> error + bool" where
  "re_match pattern s =
     (case pattern of None \<Rightarrow> Inl RegexError | Some r \<Rightarrow> Inr (matches r s))"

text \<open>Lines 40-58, the body of the inner loop.\<close>

definition check_column ::
  "regex option \<Rightarrow> string list \<Rightarrow> string list \<Rightarrow> bool \<Rightarrow> string list \<Rightarrow>
   column \<Rightarrow> state \<Rightarrow> error + state" where
  "check_column pattern dtype dtype_upper pattern_flg col_name_ignore col st =
     (case name col of
        None \<Rightarrow> Inl AttributeError
      | Some n \<Rightarrow>
          (case type col of
             None \<Rightarrow> Inl AttributeError
           | Some t \<Rightarrow>
               (let col_name = lower n; col_type = lower t in
                if col_type \<in> set dtype then
                  (if col_name \<notin> set col_name_ignore then
                     (case re_match pattern col_name of
                        Inl e \<Rightarrow> Inl e
                      | Inr m \<Rightarrow>
                          if \<not> m \<and> \<not> pattern_flg
                          then Inr (st\<lparr>status_code := 1,
                                      printed := printed st @
                                        [TypeWithoutPattern col_name dtype_upper pattern]\<rparr>)
                          else Inr st)
                   else Inr st)
                else if col_name \<notin> set col_name_ignore then
                  (case re_match pattern col_name of
                     Inl e \<Rightarrow> Inl e
                   | Inr m \<Rightarrow>
                       if m
                       then Inr (st\<lparr>status_code := 1,
                                   printed := printed st @
                                     [PatternWithoutType col_name pattern col_type dtype_upper]\<rparr>)
                       else Inr st)
                else Inr st)))"

text \<open>Line 39, the inner loop over the columns of one model.\<close>

fun columns_loop ::
  "regex option \<Rightarrow> string list \<Rightarrow> string list \<Rightarrow> bool \<Rightarrow> string list \<Rightarrow>
   column list \<Rightarrow> state \<Rightarrow> error + state" where
  "columns_loop pattern dtype dtype_upper pattern_flg col_name_ignore [] st = Inr st"
| "columns_loop pattern dtype dtype_upper pattern_flg col_name_ignore (col # cols) st =
     (case check_column pattern dtype dtype_upper pattern_flg col_name_ignore col st of
        Inl e \<Rightarrow> Inl e
      | Inr st' \<Rightarrow> columns_loop pattern dtype dtype_upper pattern_flg col_name_ignore cols st')"

text \<open>
  \<^verbatim>\<open>model.node.get("columns", []).values()\<close>: without the key the default is a list,
  which has no \<^verbatim>\<open>values\<close>.
\<close>

definition node_columns :: "node \<Rightarrow> error + column list" where
  "node_columns n =
     (case columns n of None \<Rightarrow> Inl AttributeError | Some cs \<Rightarrow> Inr (map snd cs))"

text \<open>Line 38, the outer loop over the models.\<close>

fun models_loop ::
  "regex option \<Rightarrow> string list \<Rightarrow> string list \<Rightarrow> bool \<Rightarrow> string list \<Rightarrow>
   model list \<Rightarrow> state \<Rightarrow> error + state" where
  "models_loop pattern dtype dtype_upper pattern_flg col_name_ignore [] st = Inr st"
| "models_loop pattern dtype dtype_upper pattern_flg col_name_ignore (m # ms) st =
     (case node_columns (node m) of
        Inl e \<Rightarrow> Inl e
      | Inr cols \<Rightarrow>
          (case columns_loop pattern dtype dtype_upper pattern_flg col_name_ignore cols st of
             Inl e \<Rightarrow> Inl e
           | Inr st' \<Rightarrow> models_loop pattern dtype dtype_upper pattern_flg col_name_ignore ms st'))"

text \<open>
  Lines 20-60. The result is the returned status together with the lines printed on the way.
\<close>

definition check_column_name_contract ::
  "string list \<Rightarrow> regex option \<Rightarrow> string \<Rightarrow> catalog \<Rightarrow> bool \<Rightarrow> string \<Rightarrow> error + state" where
  "check_column_name_contract paths pattern dtype catalog pattern_flg col_name_ignore =
     (let sqls = get_filenames paths [''.sql''];
          filenames = set (map fst sqls);
          models = get_models catalog filenames;
          dtype_list = normalize_param dtype;
          dtype_upper = map upper dtype_list;
          ignore_list = normalize_param col_name_ignore
      in models_loop pattern dtype_list dtype_upper pattern_flg ignore_list models
           \<lparr>status_code = 0, printed = []\<rparr>)"

section \<open>The contract as the specification words it\<close>

text \<open>The models in scope and their columns, in the order the loops visit them.\<close>

definition in_scope_models :: "string list \<Rightarrow> catalog \<Rightarrow> model list" where
  "in_scope_models paths catalog =
     get_models catalog (set (map fst (get_filenames paths [''.sql''])))"

definition entry_columns :: "node \<Rightarrow> column list" where
  "entry_columns n = (case columns n of None \<Rightarrow> [] | Some cs \<Rightarrow> map snd cs)"

definition in_scope_columns :: "string list \<Rightarrow> catalog \<Rightarrow> column list" where
  "in_scope_columns paths catalog =
     concat (map (\<lambda>m. entry_columns (node m)) (in_scope_models paths catalog))"

definition well_formed_column :: "column \<Rightarrow> bool" where
  "well_formed_column col = (name col \<noteq> None \<and> type col \<noteq> None)"

text \<open>
  The forward violation (the type is allowed, the name does not match) and the reverse
  violation (the name matches, the type is not allowed) of a column, over the normalized
  type list and ignore list.
\<close>

definition forward_violation ::
  "regex \<Rightarrow> string list \<Rightarrow> bool \<Rightarrow> string list \<Rightarrow> column \<Rightarrow> bool" where
  "forward_violation r dtype_list pattern_flg ignore_list col =
     (case (name col, type col) of
        (Some n, Some t) \<Rightarrow>
          lower t \<in> set dtype_list \<and> \<not> pattern_flg \<and> lower n \<notin> set ignore_list \<and>
          \<not> matches r (lower n)
      | _ \<Rightarrow> False)"

definition reverse_violation ::
  "regex \<Rightarrow> string list \<Rightarrow> string list \<Rightarrow> column \<Rightarrow> bool" where
  "reverse_violation r dtype_list ignore_list col =
     (case (name col, type col) of
        (Some n, Some t) \<Rightarrow>
          lower t \<notin> set dtype_list \<and> lower n \<notin> set ignore_list \<and> matches r (lower n)
      | _ \<Rightarrow> False)"

text \<open>The line a violating column is reported with, if it violates.\<close>

definition diagnostic_of ::
  "regex \<Rightarrow> string list \<Rightarrow> bool \<Rightarrow> string list \<Rightarrow> column \<Rightarrow> diagnostic option" where
  "diagnostic_of r dtype_list pattern_flg ignore_list col =
     (if forward_violation r dtype_list pattern_flg ignore_list col
      then Some (TypeWithoutPattern (lower (the (name col))) (map upper dtype_list) (Some r))
      else if reverse_violation r dtype_list ignore_list col
      then Some (PatternWithoutType (lower (the (name col))) (Some r)
                   (lower (the (type col))) (map upper dtype_list))
      else None)"

section \<open>Example inputs\<close>

definition example_catalog :: catalog where
  "example_catalog =
     [(''orders'', \<lparr>columns = Some
         [(''dt_created'', \<lparr>name = Some ''DT_Created'', type = Some ''DATE''\<rparr>),
          (''created_at'', \<lparr>name = Some ''created_at'', type = Some ''date''\<rparr>)]\<rparr>),
      (''users'', \<lparr>columns = Some
         [(''dt_flag'', \<lparr>name = Some ''dt_flag'', type = Some ''boolean''\<rparr>)]\<rparr>),
      (''legacy'', \<lparr>columns = None\<rparr>)]"


definition dated_catalog :: catalog where
  "dated_catalog =
     [(''orders'', \<lparr>columns = Some
         [(''dt_created'', \<lparr>name = Some ''DT_Created'', type = Some ''DATE''\<rparr>),
          (''created_at'', \<lparr>name = Some ''created_at'', type = Some ''date''\<rparr>)]\<rparr>),
      (''users'', \<lparr>columns = Some
         [(''dt_flag'', \<lparr>name = Some ''dt_flag'', type = Some ''boolean''\<rparr>)]\<rparr>)]"

section \<open>Properties of the string functions and of matching\<close>














section \<open>Properties of the loops\<close>

lemma check_column_diagnostic:
  assumes "name col = Some n" "type col = Some t"
  shows "check_column (Some r) d (map upper d) f ig col st =
         Inr (case diagnostic_of r d f ig col of
                None \<Rightarrow> st
              | Some dg \<Rightarrow> st\<lparr>status_code := 1, printed := printed st @ [dg]\<rparr>)"
  using assms
  by (simp add: check_column_def re_match_def diagnostic_of_def forward_violation_def
      reverse_violation_def Let_def)

lemma columns_loop_diagnostics:
  assumes "\<forall>c\<in>set cols. well_formed_column c"
  shows "columns_loop (Some r) d (map upper d) f ig cols st =
         Inr (st\<lparr>status_code := (if List.map_filter (diagnostic_of r d f ig) cols = []
                                    then status_code st else 1),
                   printed := printed st @ List.map_filter (diagnostic_of r d f ig) cols\<rparr>)"
  using assms
proof (induction cols arbitrary: st)
  case Nil
  then show ?case by (simp add: List.map_filter_def)
next
  case (Cons c cols)
  then obtain n t where nt: "name c = Some n" "type c = Some t"
    by (auto simp: well_formed_column_def)
  from Cons.prems have wf: "\<forall>c\<in>set cols. well_formed_column c" by simp
  show ?case
    by (cases "diagnostic_of r d f ig c")
       (simp_all add: check_column_diagnostic [OF nt] Cons.IH [OF wf] List.map_filter_def)
qed

lemma models_loop_diagnostics:
  assumes "\<forall>m\<in>set ms. columns (node m) \<noteq> None"
    and "\<forall>c\<in>set (concat (map (\<lambda>m. entry_columns (node m)) ms)). well_formed_column c"
  shows "models_loop (Some r) d (map upper d) f ig ms st =
         Inr (st\<lparr>status_code :=
                     (if List.map_filter (diagnostic_of r d f ig)
                           (concat (map (\<lambda>m. entry_columns (node m)) ms)) = []
                      then status_code st else 1),
                   printed := printed st @
                     List.map_filter (diagnostic_of r d f ig)
                       (concat (map (\<lambda>m. entry_columns (node m)) ms))\<rparr>)"
  using assms
proof (induction ms arbitrary: st)
  case Nil
  then show ?case by (simp add: List.map_filter_def)
next
  case (Cons m ms)
  from Cons.prems obtain cs where cs: "columns (node m) = Some cs" by auto
  then have ec: "entry_columns (node m) = map snd cs" "node_columns (node m) = Inr (map snd cs)"
    by (simp_all add: entry_columns_def node_columns_def)
  from Cons.prems ec have wf1: "\<forall>c\<in>set (map snd cs). well_formed_column c" by simp
  from Cons.prems have wf2: "\<forall>m\<in>set ms. columns (node m) \<noteq> None"
    "\<forall>c\<in>set (concat (map (\<lambda>m. entry_columns (node m)) ms)). well_formed_column c"
    by simp_all
  show ?case
    by (simp add: ec columns_loop_diagnostics [OF wf1] Cons.IH [OF wf2] List.map_filter_def)
qed

lemma map_filter_empty:
  "List.map_filter g xs = [] \<longleftrightarrow> (\<forall>x\<in>set xs. g x = None)"
  by (simp add: List.map_filter_def filter_empty_conv)

lemma check_column_Inr:
  "check_column p d du f ig c st = Inr st' \<Longrightarrow> well_formed_column c"
  by (auto simp: check_column_def well_formed_column_def split: option.splits)

lemma columns_loop_Inr:
  "columns_loop p d du f ig cols st = Inr st' \<Longrightarrow> \<forall>c\<in>set cols. well_formed_column c"
  by (induction cols arbitrary: st) (auto split: sum.splits dest: check_column_Inr)

lemma models_loop_Inr:
  "models_loop p d du f ig ms st = Inr st' \<Longrightarrow>
   (\<forall>m\<in>set ms. columns (node m) \<noteq> None) \<and>
   (\<forall>c\<in>set (concat (map (\<lambda>m. entry_columns (node m)) ms)). well_formed_column c)"
proof (induction ms arbitrary: st)
  case Nil
  then show ?case by simp
next
  case (Cons m ms)
  from Cons.prems obtain cs where cs: "columns (node m) = Some cs"
    by (cases "columns (node m)") (simp_all add: node_columns_def)
  with Cons.prems obtain st1 where
    st1: "columns_loop p d du f ig (map snd cs) st = Inr st1"
      "models_loop p d du f ig ms st1 = Inr st'"
    by (auto simp: node_columns_def split: sum.splits)
  from columns_loop_Inr [OF st1(1)] cs
  have "\<forall>c\<in>set (entry_columns (node m)). well_formed_column c"
    by (simp add: entry_columns_def)
  with Cons.IH [OF st1(2)] cs show ?case by auto
qed

section \<open>Properties of the normalizer and of the scope\<close>

lemma re_split_not_Nil: "re_split s \<noteq> []"
  by (induction s rule: re_split.induct) (auto split: list.splits)

lemma re_split_plain_Cons:
  "plain_char c \<Longrightarrow> re_split (c # cs) = (c # hd (re_split cs)) # tl (re_split cs)"
  using re_split_not_Nil [of cs] by (auto simp: plain_char_def split: list.splits)

lemma re_split_plain_append:
  "list_all plain_char a \<Longrightarrow> re_split (a @ b) = (a @ hd (re_split b)) # tl (re_split b)"
proof (induction a)
  case Nil
  then show ?case using re_split_not_Nil [of b] by simp
next
  case (Cons c a)
  then show ?case by (simp add: re_split_plain_Cons del: re_split.simps)
qed

lemma re_split_comma_space: "re_split ('', '' @ b) = [] # re_split b"
  by simp

lemma re_split_comma: "take 1 b \<noteq> '' '' \<Longrightarrow> re_split ('','' @ b) = [] # re_split b"
  by simp

lemma re_split_pipe: "re_split (''|'' @ b) = [] # re_split b"
  by simp

lemma re_split_space:
  "re_split (CHR '' '' # b) =
     (if comma_space_ahead b then (CHR '' '' # hd (re_split b)) # tl (re_split b)
      else [] # re_split b)"
  using re_split_not_Nil [of b] by (auto split: list.splits)

lemma lower_append: "lower (a @ b) = lower a @ lower b"
  by (simp add: lower_def)

lemma normalize_param_sep:
  assumes "list_all plain_char a" and "re_split (sep @ b) = [] # re_split b"
  shows "normalize_param (a @ sep @ b) = lower a # normalize_param b"
  using assms by (simp add: normalize_param_def re_split_plain_append)





section \<open>Evaluation and the result of a run\<close>

lemmas string_eval = lower_def upper_def lower_char_def upper_char_def ascii_uppercase_def
  ascii_lowercase_def newline_def

lemmas scope_eval = in_scope_models_def in_scope_columns_def entry_columns_def get_filenames_def
  get_models_def path_name_def path_suffix_def path_stem_def

lemmas check_eval = check_column_name_contract_def check_column_def re_match_def
  node_columns_def normalize_param_def Let_def

lemma no_diagnostics:
  "List.map_filter (diagnostic_of r d f ig) cols = [] \<longleftrightarrow>
   \<not> (\<exists>c\<in>set cols. forward_violation r d f ig c \<or> reverse_violation r d ig c)"
  by (auto simp: map_filter_empty diagnostic_of_def split: if_splits)

lemma contract_loop:
  "check_column_name_contract paths p dtype catalog f ign =
   models_loop p (normalize_param dtype) (map upper (normalize_param dtype)) f
     (normalize_param ign) (in_scope_models paths catalog) \<lparr>status_code = 0, printed = []\<rparr>"
  by (simp add: check_column_name_contract_def in_scope_models_def Let_def)

text \<open>
  On a catalog whose models in scope all carry their columns, every column with a name and a
  type, and with a pattern that compiles, the check returns: the status is 1 exactly when
  some column in scope violates the contract in either direction, and every violating column
  has its own line in the output, in the order of the loops.
\<close>

lemma contract_status:
  assumes "\<forall>m\<in>set (in_scope_models paths catalog). columns (node m) \<noteq> None"
    and "\<forall>c\<in>set (in_scope_columns paths catalog). well_formed_column c"
  shows "check_column_name_contract paths (Some r) dtype catalog f ign =
         Inr \<lparr>status_code =
                (if \<exists>c\<in>set (in_scope_columns paths catalog).
                      forward_violation r (normalize_param dtype) f (normalize_param ign) c \<or>
                      reverse_violation r (normalize_param dtype) (normalize_param ign) c
                 then 1 else 0),
              printed =
                List.map_filter
                  (diagnostic_of r (normalize_param dtype) f (normalize_param ign))
                  (in_scope_columns paths catalog)\<rparr>"
proof -
  have "check_column_name_contract paths (Some r) dtype catalog f ign =
        Inr \<lparr>status_code =
                (if List.map_filter
                      (diagnostic_of r (normalize_param dtype) f (normalize_param ign))
                      (in_scope_columns paths catalog) = [] then 0 else 1),
              printed =
                List.map_filter
                  (diagnostic_of r (normalize_param dtype) f (normalize_param ign))
                  (in_scope_columns paths catalog)\<rparr>"
    using assms by (simp add: contract_loop models_loop_diagnostics in_scope_columns_def)
  then show ?thesis
    unfolding no_diagnostics by simp
qed

lemma contract_Inr:
  assumes "check_column_name_contract paths p dtype catalog f ign = Inr st"
  shows "(\<forall>m\<in>set (in_scope_models paths catalog). columns (node m) \<noteq> None) \<and>
         (\<forall>c\<in>set (in_scope_columns paths catalog). well_formed_column c)"
  using models_loop_Inr [OF assms [unfolded contract_loop]]
  by (simp add: in_scope_columns_def)

lemma check_column_ignored:
  assumes "name col = Some n" and "lower n \<in> set ig"
  shows "check_column p d du f ig col st =
         (if type col = None then Inl AttributeError else Inr st)"
  using assms by (auto simp: check_column_def Let_def split: option.splits)




section \<open>The claims\<close>

text \<open>
  Claim C1. The check returns a status for every catalog, and the status is 1 exactly when
  some column in scope violates the contract. On a model in scope whose entry has no
  \<^verbatim>\<open>"columns"\<close> key the check does not return: line 39 falls back to a list and calls
  \<^verbatim>\<open>.values()\<close> on it, which raises. Here the catalog has one such entry, the pattern
  compiles, and no column is ill-formed, for there is none.
\<close>

theorem contract_raises_without_columns:
  "check_column_name_contract [''models/orders.sql''] (Some (lits ''dt_'')) ''date''
     [(''orders'', \<lparr>columns = None\<rparr>)] False '''' = Inl AttributeError"
  by (simp add: check_eval scope_eval)

text \<open>
  Claim C2. A column is judged in one direction only, chosen by whether its lowercased type
  is in the type list: when it is, the step leaves the state as it was or reports one
  \<open>TypeWithoutPattern\<close>; when it is not, the step leaves the state as it was or reports
  one \<open>PatternWithoutType\<close>. No column is reported twice.
\<close>

theorem check_column_one_direction:
  assumes "check_column p d du f ig col st = Inr st'" and "type col = Some t"
  shows "(lower t \<in> set d \<longrightarrow>
            st' = st \<or>
            (\<exists>n. st' = st\<lparr>status_code := 1,
                           printed := printed st @ [TypeWithoutPattern n du p]\<rparr>)) \<and>
         (lower t \<notin> set d \<longrightarrow>
            st' = st \<or>
            (\<exists>n. st' = st\<lparr>status_code := 1,
                           printed := printed st @ [PatternWithoutType n p (lower t) du]\<rparr>))"
  using assms
  by (auto simp: check_column_def Let_def split: option.splits if_splits sum.splits)

theorem check_column_one_direction_witness:
  "lower ''boolean'' \<notin> set [''date''] \<and>
   check_column (Some (lits ''dt_'')) [''date''] [''DATE''] False [[]]
     \<lparr>name = Some ''dt_flag'', type = Some ''boolean''\<rparr> \<lparr>status_code = 0, printed = []\<rparr> =
   Inr \<lparr>status_code = 1,
        printed = [PatternWithoutType ''dt_flag'' (Some (lits ''dt_'')) ''boolean'' [''DATE'']]\<rparr> \<and>
   (\<exists>n. \<lparr>status_code = 1,
           printed = [PatternWithoutType ''dt_flag'' (Some (lits ''dt_'')) ''boolean'' [''DATE'']]\<rparr> =
         \<lparr>status_code = 0, printed = []\<rparr>
           \<lparr>status_code := 1,
            printed := printed \<lparr>status_code = 0, printed = []\<rparr> @
              [PatternWithoutType n (Some (lits ''dt_'')) (lower ''boolean'') [''DATE'']]\<rparr>)"
proof -
  have run: "check_column (Some (lits ''dt_'')) [''date''] [''DATE''] False [[]]
               \<lparr>name = Some ''dt_flag'', type = Some ''boolean''\<rparr>
               \<lparr>status_code = 0, printed = []\<rparr> =
             Inr \<lparr>status_code = 1,
                  printed = [PatternWithoutType ''dt_flag'' (Some (lits ''dt_'')) ''boolean''
                               [''DATE'']]\<rparr>"
    by (simp add: check_eval string_eval)
  have ty: "type \<lparr>name = Some ''dt_flag'', type = Some ''boolean''\<rparr> = Some ''boolean''"
    by simp
  have out: "lower ''boolean'' \<notin> set [''date'']"
    by (simp add: string_eval)
  from check_column_one_direction [OF run ty] out run show ?thesis by simp
qed

text \<open>
  Claim C3. With \<open>pattern_flg\<close> set, a column whose type is in the type list changes
  neither the status nor the output, whatever its name; a column whose type is not in the
  type list is checked as it is without the flag.
\<close>

theorem pattern_flg_suppresses_forward_only:
  "(name col = Some n \<longrightarrow> type col = Some t \<longrightarrow> lower t \<in> set d \<longrightarrow>
      check_column (Some r) d du True ig col st = Inr st) \<and>
   (type col = Some t \<longrightarrow> lower t \<in> set d \<longrightarrow>
      check_column p d du True ig col st = Inr st' \<longrightarrow> st' = st) \<and>
   (type col = Some t \<longrightarrow> lower t \<notin> set d \<longrightarrow>
      check_column p d du True ig col st = check_column p d du False ig col st)"
  by (auto simp: check_column_def re_match_def Let_def split: option.splits if_splits)

theorem pattern_flg_suppresses_forward_only_witness:
  "check_column (Some (lits ''dt_'')) [''date''] [''DATE''] True [[]]
     \<lparr>name = Some ''created_at'', type = Some ''date''\<rparr> \<lparr>status_code = 0, printed = []\<rparr> =
   Inr \<lparr>status_code = 0, printed = []\<rparr> \<and>
   check_column (Some (lits ''dt_'')) [''date''] [''DATE''] True [[]]
     \<lparr>name = Some ''dt_flag'', type = Some ''boolean''\<rparr> \<lparr>status_code = 0, printed = []\<rparr> =
   check_column (Some (lits ''dt_'')) [''date''] [''DATE''] False [[]]
     \<lparr>name = Some ''dt_flag'', type = Some ''boolean''\<rparr> \<lparr>status_code = 0, printed = []\<rparr>"
  using pattern_flg_suppresses_forward_only
          [where col = "\<lparr>name = Some ''created_at'', type = Some ''date''\<rparr>"
             and n = "''created_at''" and t = "''date''" and d = "[''date'']"
             and r = "lits ''dt_''" and du = "[''DATE'']" and ig = "[[]]"
             and st = "\<lparr>status_code = 0, printed = []\<rparr>"]
        pattern_flg_suppresses_forward_only
          [where col = "\<lparr>name = Some ''dt_flag'', type = Some ''boolean''\<rparr>"
             and n = "''dt_flag''" and t = "''boolean''" and d = "[''date'']"
             and r = "lits ''dt_''" and du = "[''DATE'']" and ig = "[[]]"
             and st = "\<lparr>status_code = 0, printed = []\<rparr>" and p = "Some (lits ''dt_'')"]
  by (simp add: string_eval)

text \<open>
  Claim C4, as amended. A column whose lowercased name is in the ignore list is exempt from
  the reverse check as well: when its type is not in the type list and its name matches the
  pattern, nothing is reported and the status stays as it was.
\<close>

theorem ignored_column_exempt_from_reverse:
  assumes "name col = Some n" and "lower n \<in> set ig"
    and "type col = Some t" and "lower t \<notin> set d" and "matches r (lower n)"
  shows "check_column (Some r) d du f ig col st = Inr st"
  using assms by (simp add: check_column_ignored)

theorem ignored_column_exempt_from_reverse_witness:
  "lower ''dt_flag'' \<in> set [''dt_flag''] \<and> lower ''boolean'' \<notin> set [''date''] \<and>
   matches (lits ''dt_'') (lower ''dt_flag'') \<and>
   check_column (Some (lits ''dt_'')) [''date''] [''DATE''] False [''dt_flag'']
     \<lparr>name = Some ''dt_flag'', type = Some ''boolean''\<rparr> \<lparr>status_code = 0, printed = []\<rparr> =
   Inr \<lparr>status_code = 0, printed = []\<rparr>"
proof -
  have h: "lower ''dt_flag'' \<in> set [''dt_flag'']" "lower ''boolean'' \<notin> set [''date'']"
    "matches (lits ''dt_'') (lower ''dt_flag'')"
    by (simp_all add: string_eval)
  from ignored_column_exempt_from_reverse
         [of "\<lparr>name = Some ''dt_flag'', type = Some ''boolean''\<rparr>", OF _ h(1) _ h(2) h(3)] h
  show ?thesis by simp
qed

text \<open>
  The scenario of the claim as it was stated: the name \<open>dt_flag\<close> is in the ignore list,
  its type is not in the type list and it matches the pattern; the status is 0 and nothing
  is printed.
\<close>

theorem ignored_column_reverse_counterexample:
  "check_column_name_contract [''models/users.sql''] (Some (lits ''dt_'')) ''date''
     [(''users'', \<lparr>columns = Some
         [(''dt_flag'', \<lparr>name = Some ''dt_flag'', type = Some ''boolean''\<rparr>)]\<rparr>)]
     False ''dt_flag'' =
   Inr \<lparr>status_code = 0, printed = []\<rparr>"
  by (simp add: check_eval scope_eval string_eval)

text \<open>
  Claim C5. A column whose lowercased name is in the ignore list is never reported, by
  either check, for every pattern, type list and flag: the step returns the state it was
  given (or raises, when the column has no type).
\<close>

theorem ignored_column_never_violates:
  assumes "name col = Some n" and "lower n \<in> set ig"
  shows "check_column p d du f ig col st =
           (if type col = None then Inl AttributeError else Inr st) \<and>
         \<not> forward_violation r d f ig col \<and> \<not> reverse_violation r d ig col"
  using assms
  by (auto simp: check_column_ignored forward_violation_def reverse_violation_def
      split: option.splits)

theorem ignored_column_never_violates_witness:
  "lower ''Created_At'' \<in> set [''id'', ''created_at''] \<and>
   check_column (Some (lits ''dt_'')) [''date''] [''DATE''] False [''id'', ''created_at'']
     \<lparr>name = Some ''Created_At'', type = Some ''date''\<rparr> \<lparr>status_code = 0, printed = []\<rparr> =
   Inr \<lparr>status_code = 0, printed = []\<rparr> \<and>
   \<not> forward_violation (lits ''dt_'') [''date''] False [''id'', ''created_at'']
       \<lparr>name = Some ''Created_At'', type = Some ''date''\<rparr>"
proof -
  have h: "lower ''Created_At'' \<in> set [''id'', ''created_at'']"
    by (simp add: string_eval)
  from ignored_column_never_violates
         [of "\<lparr>name = Some ''Created_At'', type = Some ''date''\<rparr>", OF _ h] h
  show ?thesis by simp
qed

text \<open>
  Claim C6. The normalizer returns one empty token for the empty string; a stretch of
  characters other than comma, space and pipe is one token, in lower case; a comma followed
  by a space, a comma, and a pipe each end a token; a space ends a token when no comma
  followed by a space comes later on the line, and is kept in the token otherwise. Empty
  tokens and repeated tokens are kept.
\<close>

theorem normalize_param_tokens:
  "normalize_param [] = [[]] \<and>
   (list_all plain_char a \<longrightarrow>
      normalize_param a = [lower a] \<and>
      normalize_param (a @ '', '' @ b) = lower a # normalize_param b \<and>
      (take 1 b \<noteq> '' '' \<longrightarrow> normalize_param (a @ '','' @ b) = lower a # normalize_param b) \<and>
      normalize_param (a @ ''|'' @ b) = lower a # normalize_param b \<and>
      (\<not> comma_space_ahead b \<longrightarrow>
         normalize_param (a @ '' '' @ b) = lower a # normalize_param b) \<and>
      (comma_space_ahead b \<longrightarrow>
         normalize_param (a @ '' '' @ b) =
           (lower a @ '' '' @ hd (normalize_param b)) # tl (normalize_param b)))"
proof -
  have empty: "normalize_param [] = [[]]"
    by (simp add: normalize_param_def lower_def)
  have single: "normalize_param a = [lower a]" if "list_all plain_char a"
    using that re_split_plain_append [of a "[]"] by (simp add: normalize_param_def)
  have kept: "normalize_param (a @ '' '' @ b) =
                (lower a @ '' '' @ hd (normalize_param b)) # tl (normalize_param b)"
    if "list_all plain_char a" "comma_space_ahead b"
    using that re_split_not_Nil [of b]
    by (simp add: normalize_param_def re_split_plain_append [of a] re_split_space lower_append
        hd_map map_tl lower_def lower_char_def ascii_uppercase_def ascii_lowercase_def
        del: re_split.simps)
  show ?thesis
    using empty single kept
      normalize_param_sep [of a "'', ''" b, OF _ re_split_comma_space]
      normalize_param_sep [of a "'',''" b, OF _ re_split_comma]
      normalize_param_sep [of a "''|''" b, OF _ re_split_pipe]
      normalize_param_sep [of a "'' ''" b]
    by (simp add: re_split_space del: re_split.simps)
qed

theorem normalize_param_tokens_witness:
  "list_all plain_char ''Date'' \<and> \<not> comma_space_ahead ''x y'' \<and> comma_space_ahead ''b, c'' \<and>
   normalize_param ''Date'' = [''date''] \<and>
   normalize_param ''Date, TIMESTAMP|date,,x y'' =
     ''date'' # normalize_param ''TIMESTAMP|date,,x y'' \<and>
   normalize_param ''Date,,x y'' = ''date'' # normalize_param '',x y'' \<and>
   normalize_param ''Date|date'' = ''date'' # normalize_param ''date'' \<and>
   normalize_param ''Date x y'' = ''date'' # normalize_param ''x y'' \<and>
   normalize_param ''Date b, c'' =
     (''date'' @ '' '' @ hd (normalize_param ''b, c'')) # tl (normalize_param ''b, c'')"
proof -
  have h: "list_all plain_char ''Date''" "\<not> comma_space_ahead ''x y''"
    "comma_space_ahead ''b, c''" "take 1 '',x y'' \<noteq> '' ''"
    by (simp_all add: plain_char_def newline_def)
  have l: "lower ''Date'' = ''date''"
    by (simp add: string_eval)
  from normalize_param_tokens [of "''Date''" "''TIMESTAMP|date,,x y''"]
    normalize_param_tokens [of "''Date''" "'',x y''"]
    normalize_param_tokens [of "''Date''" "''date''"]
    normalize_param_tokens [of "''Date''" "''x y''"]
    normalize_param_tokens [of "''Date''" "''b, c''"] h l
  show ?thesis by simp
qed



text \<open>
  Claim C8. Without \<open>pattern_flg\<close>, and when every column in scope has a type of the type
  list, the returned status is 1 exactly when some column in scope has a name that is not in
  the ignore list and does not match the pattern.
\<close>

theorem forward_violations_characterize_status:
  assumes "check_column_name_contract paths (Some r) dtype catalog False ign = Inr st"
    and "\<forall>c\<in>set (in_scope_columns paths catalog).
           \<forall>t. type c = Some t \<longrightarrow> lower t \<in> set (normalize_param dtype)"
  shows "status_code st = 1 \<longleftrightarrow>
         (\<exists>c\<in>set (in_scope_columns paths catalog).
            \<exists>n t. name c = Some n \<and> type c = Some t \<and>
                  lower t \<in> set (normalize_param dtype) \<and>
                  lower n \<notin> set (normalize_param ign) \<and> \<not> matches r (lower n))"
proof -
  let ?cols = "in_scope_columns paths catalog"
  let ?d = "normalize_param dtype" and ?ig = "normalize_param ign"
  from contract_Inr [OF assms(1)]
  have wf: "\<forall>m\<in>set (in_scope_models paths catalog). columns (node m) \<noteq> None"
    "\<forall>c\<in>set ?cols. well_formed_column c"
    by simp_all
  have viol: "forward_violation r ?d False ?ig c \<or> reverse_violation r ?d ?ig c \<longleftrightarrow>
              (\<exists>n t. name c = Some n \<and> type c = Some t \<and> lower t \<in> set ?d \<and>
                     lower n \<notin> set ?ig \<and> \<not> matches r (lower n))"
    if "c \<in> set ?cols" for c
  proof -
    from that wf(2) obtain n t where nt: "name c = Some n" "type c = Some t"
      by (auto simp: well_formed_column_def)
    with that assms(2) have "lower t \<in> set ?d" by blast
    with nt show ?thesis
      by (simp add: forward_violation_def reverse_violation_def)
  qed
  from contract_status [OF wf, of r dtype False ign] assms(1)
  have "status_code st = 1 \<longleftrightarrow>
        (\<exists>c\<in>set ?cols. forward_violation r ?d False ?ig c \<or> reverse_violation r ?d ?ig c)"
    by (auto split: if_splits)
  with viol show ?thesis by blast
qed

theorem forward_violations_characterize_status_witness:
  "check_column_name_contract [''models/orders.sql''] (Some (lits ''dt_'')) ''date''
     dated_catalog False [] =
   Inr \<lparr>status_code = 1,
        printed = [TypeWithoutPattern ''created_at'' [''DATE''] (Some (lits ''dt_''))]\<rparr> \<and>
   map type (in_scope_columns [''models/orders.sql''] dated_catalog) =
     [Some ''DATE'', Some ''date''] \<and>
   normalize_param ''date'' = [''date''] \<and>
   (\<exists>c\<in>set (in_scope_columns [''models/orders.sql''] dated_catalog).
      \<exists>n t. name c = Some n \<and> type c = Some t \<and> lower t \<in> set (normalize_param ''date'') \<and>
            lower n \<notin> set (normalize_param []) \<and> \<not> matches (lits ''dt_'') (lower n))"
proof -
  have run: "check_column_name_contract [''models/orders.sql''] (Some (lits ''dt_'')) ''date''
               dated_catalog False [] =
             Inr \<lparr>status_code = 1,
                  printed = [TypeWithoutPattern ''created_at'' [''DATE''] (Some (lits ''dt_''))]\<rparr>"
    by (simp add: check_eval scope_eval string_eval dated_catalog_def)
  have cols: "map type (in_scope_columns [''models/orders.sql''] dated_catalog) =
                [Some ''DATE'', Some ''date'']"
    "normalize_param ''date'' = [''date'']"
    by (simp_all add: scope_eval string_eval normalize_param_def dated_catalog_def)
  have allowed: "\<forall>c\<in>set (in_scope_columns [''models/orders.sql''] dated_catalog).
                   \<forall>t. type c = Some t \<longrightarrow> lower t \<in> set (normalize_param ''date'')"
    by (simp add: scope_eval string_eval normalize_param_def dated_catalog_def)
  from forward_violations_characterize_status [OF run allowed] run cols
  show ?thesis by simp
qed



text \<open>
  Claim C10. When a model in scope has no \<^verbatim>\<open>"columns"\<close> key, reading its columns raises
  and the check ends in an error: the model is not treated as one without columns.
\<close>

theorem missing_columns_raises:
  assumes "m \<in> set (in_scope_models paths catalog)" and "columns (node m) = None"
  shows "node_columns (node m) = Inl AttributeError \<and>
         (\<exists>e. check_column_name_contract paths pattern dtype catalog pattern_flg
                 col_name_ignore = Inl e)"
proof -
  have "check_column_name_contract paths pattern dtype catalog pattern_flg col_name_ignore \<noteq>
        Inr st" for st
    using contract_Inr [of paths pattern dtype catalog pattern_flg col_name_ignore st] assms
    by fastforce
  then have "\<exists>e. check_column_name_contract paths pattern dtype catalog pattern_flg
                    col_name_ignore = Inl e"
    by (cases "check_column_name_contract paths pattern dtype catalog pattern_flg
                 col_name_ignore") auto
  with assms(2) show ?thesis by (simp add: node_columns_def)
qed

theorem missing_columns_raises_witness:
  "\<lparr>model_id = ''legacy'', node = \<lparr>columns = None\<rparr>\<rparr> \<in>
     set (in_scope_models [''models/legacy.sql''] example_catalog) \<and>
   check_column_name_contract [''models/legacy.sql''] (Some (lits ''dt_'')) ''date''
     example_catalog False [] = Inl AttributeError"
proof -
  have h: "\<lparr>model_id = ''legacy'', node = \<lparr>columns = None\<rparr>\<rparr> \<in>
             set (in_scope_models [''models/legacy.sql''] example_catalog)"
    by (simp add: scope_eval example_catalog_def)
  have run: "check_column_name_contract [''models/legacy.sql''] (Some (lits ''dt_'')) ''date''
               example_catalog False [] = Inl AttributeError"
    by (simp add: check_eval scope_eval example_catalog_def)
  from missing_columns_raises [OF h] h run show ?thesis by simp
qed

end
